theory Spec2Isabelle
  imports Main "HOL-Library.AList" "HOL-Library.Sublist" "HOL-Library.Word"
begin

section \<open>Pasta Shapes bulk image downloader: a model of \<open>download_images.py\<close>\<close>

text \<open>
  The script reads \<open>manifest.csv\<close>, downloads every URL to its destination below the
  script's directory, and packs the \<open>uncooked\<close> and \<open>cooked\<close> folders into one archive.
  Everything the script touches outside its own text is made explicit here:
  \<^item> the file system is an association list from paths to nodes (directory or file);
  \<^item> the network, the URL parser, the CSV tokenizer and the zip encoder are fields of an
    environment record, since they are libraries the script calls;
  \<^item> every exception is a value of the type \<open>exn\<close>, and a function that can raise
    returns \<open>exn + 'a\<close>;
  \<^item> printed lines are returned as a list of strings.

  Python strings are modelled as \<open>string\<close>, one \<open>char\<close> per code point below 256; file
  contents are lists of bytes.
\<close>

subsection \<open>Strings\<close>

type_synonym bytes = "8 word list"

text \<open>\<open>s.split(sep)\<close> for a one-character separator: always at least one piece.\<close>

fun split_on :: "char \<Rightarrow> string \<Rightarrow> string list" where
  "split_on c [] = [[]]"
| "split_on c (x # xs) =
     (if x = c then [] # split_on c xs
      else (case split_on c xs of
              [] \<Rightarrow> [[x]]
            | w # ws \<Rightarrow> (x # w) # ws))"

text \<open>The characters \<open>str.strip()\<close> removes, among the code points below 256.\<close>

definition is_space :: "char \<Rightarrow> bool" where
  "is_space c =
     ((of_char c :: nat) \<in> {9, 10, 11, 12, 13, 28, 29, 30, 31, 32, 133, 160})"

definition strip :: "string \<Rightarrow> string" where
  "strip s = rev (dropWhile is_space (rev (dropWhile is_space s)))"

text \<open>\<open>str.lower()\<close> on the code points below 256.\<close>

definition lower_char :: "char \<Rightarrow> char" where
  "lower_char c =
     (let n = (of_char c :: nat)
      in if (65 \<le> n \<and> n \<le> 90) \<or> (192 \<le> n \<and> n \<le> 222 \<and> n \<noteq> 215)
         then char_of (n + 32) else c)"

definition lower :: "string \<Rightarrow> string" where
  "lower s = map lower_char s"

definition startswith :: "string \<Rightarrow> string \<Rightarrow> bool" where
  "startswith s pre = (take (length pre) s = pre)"

text \<open>Decimal rendering of a counter, as an f-string does it.\<close>

definition digit :: "nat \<Rightarrow> char" where
  "digit n = ''0123456789'' ! (n mod 10)"

function show_nat :: "nat \<Rightarrow> string" where
  "show_nat n = (if n < 10 then [digit n] else show_nat (n div 10) @ [digit n])"
  by pat_completeness auto
termination
  by (relation "measure id") auto

declare show_nat.simps [simp del]

fun join_with :: "string \<Rightarrow> string list \<Rightarrow> string" where
  "join_with sep [] = []"
| "join_with sep [x] = x"
| "join_with sep (x # y # ys) = x @ sep @ join_with sep (y # ys)"

subsection \<open>Exceptions\<close>

text \<open>
  The exception classes that can arise, each carrying the text \<open>str(e)\<close> gives.
\<close>

datatype exn =
    ValueError string
  | KeyError string
  | AttributeError string
  | OSError string
  | HTTPError string
  | RequestException string
  | CsvError string

fun exn_str :: "exn \<Rightarrow> string" where
  "exn_str (ValueError m) = m"
| "exn_str (KeyError m) = m"
| "exn_str (AttributeError m) = m"
| "exn_str (OSError m) = m"
| "exn_str (HTTPError m) = m"
| "exn_str (RequestException m) = m"
| "exn_str (CsvError m) = m"

subsection \<open>Paths (\<open>pathlib.Path\<close>, POSIX flavour)\<close>

text \<open>
  A path is the list of its components below the file system root \<open>/\<close>. Paths are
  compared as lists: \<open>..\<close> components and symbolic links are not resolved, as
  \<open>pathlib\<close> itself does not resolve them.
\<close>

type_synonym path = "string list"

definition path_parts :: "string \<Rightarrow> path" where
  "path_parts s = filter (\<lambda>c. c \<noteq> [] \<and> c \<noteq> ''.'') (split_on CHR ''/'' s)"

text \<open>\<open>base / rel\<close>: an absolute right operand replaces the left one.\<close>

definition pjoin :: "path \<Rightarrow> string \<Rightarrow> path" where
  "pjoin base rel =
     (if rel \<noteq> [] \<and> hd rel = CHR ''/'' then path_parts rel else base @ path_parts rel)"

definition name_of :: "path \<Rightarrow> string" where
  "name_of p = (if p = [] then [] else last p)"

definition parent :: "path \<Rightarrow> path" where
  "parent p = butlast p"

text \<open>\<open>s.rfind(c)\<close>, with \<open>None\<close> for Python's \<open>-1\<close>.\<close>

fun rfind :: "char \<Rightarrow> string \<Rightarrow> nat option" where
  "rfind c [] = None"
| "rfind c (x # xs) =
     (case rfind c xs of
        Some i \<Rightarrow> Some (Suc i)
      | None \<Rightarrow> (if x = c then Some 0 else None))"

text \<open>
  \<open>Path.suffix\<close>: the name from its last dot on, unless that dot is the first or the
  last character of the name.
\<close>

definition suffix_of :: "path \<Rightarrow> string" where
  "suffix_of p =
     (let n = name_of p
      in case rfind CHR ''.'' n of
           None \<Rightarrow> []
         | Some i \<Rightarrow> (if 0 < i \<and> i < length n - 1 then drop i n else []))"

definition with_suffix :: "path \<Rightarrow> string \<Rightarrow> exn + path" where
  "with_suffix p s =
     (if CHR ''/'' \<in> set s then Inl (ValueError ''Invalid suffix'')
      else if (s \<noteq> [] \<and> \<not> startswith s ''.'') \<or> s = ''.''
        then Inl (ValueError ''Invalid suffix'')
      else if name_of p = [] then Inl (ValueError ''path has an empty name'')
      else let old_suffix = suffix_of p;
               n = (if old_suffix = [] then name_of p @ s
                    else take (length (name_of p) - length old_suffix) (name_of p) @ s)
           in Inr (butlast p @ [n]))"

definition path_str :: "path \<Rightarrow> string" where
  "path_str p = ''/'' @ join_with ''/'' p"

text \<open>\<open>str(p.relative_to(base))\<close>: raises when \<open>base\<close> is not a prefix of \<open>p\<close>.\<close>

definition relative_to :: "path \<Rightarrow> path \<Rightarrow> exn + string" where
  "relative_to p base =
     (if prefix base p
      then Inr (if drop (length base) p = [] then ''.''
                else join_with ''/'' (drop (length base) p))
      else Inl (ValueError (path_str p @ '' is not in the subpath of '' @ path_str base)))"

subsection \<open>The file system\<close>

text \<open>
  A node is a directory or a regular file with its bytes. The file system lists the
  nodes that exist; the root directory \<open>/\<close> (the empty path) always exists.
\<close>

datatype node = Dir | File bytes

type_synonym filesystem = "(path \<times> node) list"

definition node_at :: "filesystem \<Rightarrow> path \<Rightarrow> node option" where
  "node_at fs p = (if p = [] then Some Dir else map_of fs p)"

definition is_file :: "node option \<Rightarrow> bool" where
  "is_file n = (case n of Some (File bs) \<Rightarrow> True | _ \<Rightarrow> False)"

text \<open>The non-empty prefixes of a path, shortest first: the directories above it and itself.\<close>

definition ancestors :: "path \<Rightarrow> path list" where
  "ancestors d = tl (prefixes d)"

text \<open>
  \<open>d.mkdir(parents=True, exist_ok=True)\<close>: raises when \<open>d\<close> or a directory above it is a
  regular file, otherwise creates whatever is missing.
\<close>

definition mkdir_p :: "filesystem \<Rightarrow> path \<Rightarrow> exn + filesystem" where
  "mkdir_p fs d =
     (if list_ex (\<lambda>q. is_file (node_at fs q)) (ancestors d)
      then Inl (OSError ''File exists or not a directory'')
      else Inr (fold (\<lambda>q f. if node_at f q = None then AList.update q Dir f else f)
                  (ancestors d) fs))"

text \<open>\<open>open(p, "wb")\<close>: creates or truncates the file; a directory cannot be opened.\<close>

definition open_wb :: "filesystem \<Rightarrow> path \<Rightarrow> exn + filesystem" where
  "open_wb fs p =
     (if node_at fs p = Some Dir then Inl (OSError ''Is a directory'')
      else Inr (AList.update p (File []) fs))"

text \<open>\<open>os.replace(src, dst)\<close>: the atomic rename of a file over whatever file is at \<open>dst\<close>.\<close>

definition os_replace :: "filesystem \<Rightarrow> path \<Rightarrow> path \<Rightarrow> exn + filesystem" where
  "os_replace fs src dst =
     (case node_at fs src of
        None \<Rightarrow> Inl (OSError ''No such file or directory'')
      | Some n \<Rightarrow>
          (if node_at fs dst = Some Dir then Inl (OSError ''Is a directory'')
           else Inr (AList.update dst n (AList.delete src fs))))"

text \<open>\<open>p.unlink()\<close> removes a file and refuses a directory.\<close>

definition unlink :: "filesystem \<Rightarrow> path \<Rightarrow> exn + filesystem" where
  "unlink fs p =
     (case node_at fs p of
        None \<Rightarrow> Inl (OSError ''No such file or directory'')
      | Some Dir \<Rightarrow> Inl (OSError ''Is a directory'')
      | Some (File bs) \<Rightarrow> Inr (AList.delete p fs))"

subsection \<open>The environment\<close>

text \<open>
  A streamed response body is a sequence of events: a chunk arrives, or the
  connection breaks and \<open>iter_content\<close> raises.
\<close>

datatype event = Chunk bytes | Broken string

record response =
  status_code :: nat
  reason :: string
  final_url :: string
  content_type :: "string option"
  body :: "event list"

datatype compression = ZIP_STORED | ZIP_DEFLATED

type_synonym zip_entry = "string \<times> compression \<times> bytes"

text \<open>
  What the script takes from its surroundings:
  \<^item> \<open>ROOT\<close>, the directory of the script;
  \<^item> \<open>net k url\<close>, what \<open>requests.get\<close> does on the request number \<open>k\<close> of the run:
    it raises with a message, or returns the response reached after redirects;
  \<^item> \<open>url_path\<close>, the path component \<open>urlparse(url).path\<close>;
  \<^item> \<open>csv_rows\<close>, the rows \<open>csv.reader\<close> yields for the bytes of a file, or an error;
  \<^item> \<open>zip_encode\<close>, the bytes of a zip archive with the given entries;
  \<^item> \<open>dir_size\<close>, the size \<open>stat\<close> reports for a directory;
  \<^item> \<open>write_fault p written chunk\<close>, the error (if any) that writing \<open>chunk\<close> to the
    file \<open>p\<close> raises after \<open>written\<close> went through, such as a full disk.
\<close>

record env =
  ROOT :: path
  net :: "nat \<Rightarrow> string \<Rightarrow> string + response"
  url_path :: "string \<Rightarrow> string"
  csv_rows :: "bytes \<Rightarrow> string + string list list"
  zip_encode :: "zip_entry list \<Rightarrow> bytes"
  dir_size :: nat
  write_fault :: "path \<Rightarrow> bytes \<Rightarrow> bytes \<Rightarrow> string option"

definition MANIFEST :: "env \<Rightarrow> path" where
  "MANIFEST e = pjoin (ROOT e) ''manifest.csv''"

definition OUT_UNCOOKED :: "env \<Rightarrow> path" where
  "OUT_UNCOOKED e = pjoin (ROOT e) ''uncooked''"

definition OUT_COOKED :: "env \<Rightarrow> path" where
  "OUT_COOKED e = pjoin (ROOT e) ''cooked''"

definition ZIP_OUT :: "env \<Rightarrow> path" where
  "ZIP_OUT e = pjoin (ROOT e) ''pasta-images.zip''"

text \<open>The state a run changes: the file system and the log of requests sent.\<close>

record state =
  fs :: filesystem
  reqs :: "string list"

subsection \<open>Extension resolver\<close>

definition CONTENT_TYPE_EXT :: "(string \<times> string) list" where
  "CONTENT_TYPE_EXT =
     [(''image/jpeg'', ''.jpg''),
      (''image/jpg'', ''.jpg''),
      (''image/png'', ''.png''),
      (''image/webp'', ''.webp''),
      (''image/gif'', ''.gif''),
      (''image/tiff'', ''.tif''),
      (''image/bmp'', ''.bmp'')]"

definition ensure_dirs :: "env \<Rightarrow> filesystem \<Rightarrow> exn option \<times> filesystem" where
  "ensure_dirs e f =
     (case mkdir_p f (OUT_UNCOOKED e) of
        Inl x \<Rightarrow> (Some x, f)
      | Inr f1 \<Rightarrow>
          (case mkdir_p f1 (OUT_COOKED e) of
             Inl x \<Rightarrow> (Some x, f1)
           | Inr f2 \<Rightarrow> (None, f2)))"

text \<open>\<open>os.path.basename\<close>: what follows the last slash.\<close>

definition basename :: "string \<Rightarrow> string" where
  "basename s = last (split_on CHR ''/'' s)"

definition infer_ext_from_url :: "env \<Rightarrow> string \<Rightarrow> string" where
  "infer_ext_from_url e url =
     (let base = basename (url_path e url)
      in if CHR ''.'' \<in> set base
         then (let ext = ''.'' @ lower (last (split_on CHR ''.'' base))
               in if ext \<in> set [''.jpg'', ''.jpeg'', ''.png'', ''.webp'', ''.gif'',
                                 ''.tif'', ''.tiff'', ''.bmp'']
                  then (if ext = ''.jpeg'' then ''.jpg'' else ext)
                  else [])
         else [])"

definition infer_ext_from_content_type :: "string \<Rightarrow> string" where
  "infer_ext_from_content_type ctype =
     (let ct = lower (strip (hd (split_on CHR '';'' ctype)))
      in case map_of CONTENT_TYPE_EXT ct of Some x \<Rightarrow> x | None \<Rightarrow> [])"

subsection \<open>Fetcher: \<open>download_one\<close>\<close>

text \<open>\<open>r.raise_for_status()\<close>: the statuses 400 to 599 raise.\<close>

definition raise_for_status :: "response \<Rightarrow> exn option" where
  "raise_for_status r =
     (if 400 \<le> status_code r \<and> status_code r < 500
      then Some (HTTPError (show_nat (status_code r) @ '' Client Error: '' @ reason r
                            @ '' for url: '' @ final_url r))
      else if 500 \<le> status_code r \<and> status_code r < 600
      then Some (HTTPError (show_nat (status_code r) @ '' Server Error: '' @ reason r
                            @ '' for url: '' @ final_url r))
      else None)"

text \<open>\<open>r.headers.get("Content-Type", "")\<close>\<close>

definition header_content_type :: "response \<Rightarrow> string" where
  "header_content_type r = (case content_type r of None \<Rightarrow> [] | Some s \<Rightarrow> s)"

text \<open>
  Lines 87 to 90: a manifest path with no suffix gets the inferred one, if any; the
  result is the new value of the local variable \<open>out_path\<close>.
\<close>

definition resolve_out_path :: "env \<Rightarrow> response \<Rightarrow> path \<Rightarrow> exn + path" where
  "resolve_out_path e r out_path =
     (if suffix_of out_path = []
      then (let inferred =
                  (if infer_ext_from_url e (final_url r) \<noteq> []
                   then infer_ext_from_url e (final_url r)
                   else infer_ext_from_content_type (header_content_type r))
            in if inferred \<noteq> [] then with_suffix out_path inferred else Inr out_path)
      else Inr out_path)"

text \<open>
  The loop over \<open>r.iter_content\<close>: empty chunks are dropped, every other chunk is
  appended to the open file. The result is the exception that ended the loop, if any,
  and the bytes the file holds when it is closed.
\<close>

fun write_chunks :: "env \<Rightarrow> path \<Rightarrow> event list \<Rightarrow> bytes \<Rightarrow> exn option \<times> bytes" where
  "write_chunks e tmp [] acc = (None, acc)"
| "write_chunks e tmp (Broken m # evs) acc = (Some (RequestException m), acc)"
| "write_chunks e tmp (Chunk c # evs) acc =
     (if c = [] then write_chunks e tmp evs acc
      else (case write_fault e tmp acc c of
              Some m \<Rightarrow> (Some (OSError m), acc)
            | None \<Rightarrow> write_chunks e tmp evs (acc @ c)))"

text \<open>
  Lines 92 to 100: make the parent directory, stream the body into the temporary
  file, rename it over the destination.
\<close>

definition store_body :: "env \<Rightarrow> response \<Rightarrow> path \<Rightarrow> filesystem \<Rightarrow> exn option \<times> filesystem" where
  "store_body e r out_path f =
     (case mkdir_p f (parent out_path) of
        Inl x \<Rightarrow> (Some x, f)
      | Inr f1 \<Rightarrow>
          (case with_suffix out_path (suffix_of out_path @ ''.part'') of
             Inl x \<Rightarrow> (Some x, f1)
           | Inr tmp_path \<Rightarrow>
               (case open_wb f1 tmp_path of
                  Inl x \<Rightarrow> (Some x, f1)
                | Inr f2 \<Rightarrow>
                    (case write_chunks e tmp_path (body r) [] of
                       (Some x, written) \<Rightarrow> (Some x, AList.update tmp_path (File written) f2)
                     | (None, written) \<Rightarrow>
                         (case os_replace (AList.update tmp_path (File written) f2)
                                 tmp_path out_path of
                            Inl x \<Rightarrow> (Some x, AList.update tmp_path (File written) f2)
                          | Inr f3 \<Rightarrow> (None, f3))))))"

text \<open>
  The body of the \<open>try\<close> block. On an exception it returns the exception together with
  the value the local variable \<open>out_path\<close> has at that point, which the handler prints;
  otherwise the final path and the \<open>OK\<close> message.
\<close>

definition try_body ::
  "env \<Rightarrow> string \<Rightarrow> path \<Rightarrow> state \<Rightarrow> ((exn \<times> path) + (path \<times> string)) \<times> state" where
  "try_body e url out_path st =
     (let st1 = st\<lparr>reqs := reqs st @ [url]\<rparr>
      in case net e (length (reqs st)) url of
           Inl m \<Rightarrow> (Inl (RequestException m, out_path), st1)
         | Inr r \<Rightarrow>
             (case raise_for_status r of
                Some x \<Rightarrow> (Inl (x, out_path), st1)
              | None \<Rightarrow>
                  (case resolve_out_path e r out_path of
                     Inl x \<Rightarrow> (Inl (x, out_path), st1)
                   | Inr p \<Rightarrow>
                       (case store_body e r p (fs st1) of
                          (Some x, f') \<Rightarrow> (Inl (x, p), st1\<lparr>fs := f'\<rparr>)
                        | (None, f') \<Rightarrow>
                            (case relative_to p (ROOT e) of
                               Inl x \<Rightarrow> (Inl (x, p), st1\<lparr>fs := f'\<rparr>)
                             | Inr s \<Rightarrow> (Inr (p, ''OK '' @ s), st1\<lparr>fs := f'\<rparr>))))))"

text \<open>\<open>stat().st_size\<close> of an existing node.\<close>

definition st_size :: "env \<Rightarrow> node \<Rightarrow> nat" where
  "st_size e n = (case n of Dir \<Rightarrow> dir_size e | File bs \<Rightarrow> length bs)"

text \<open>Line 77: \<open>out_path.exists() and out_path.stat().st_size > 0\<close>.\<close>

definition already_present :: "env \<Rightarrow> filesystem \<Rightarrow> path \<Rightarrow> bool" where
  "already_present e f p = (case node_at f p of None \<Rightarrow> False | Some n \<Rightarrow> 0 < st_size e n)"

text \<open>
  \<open>download_one\<close> returns \<open>(did_download, message)\<close>, or raises: \<open>relative_to\<close> in the
  skip branch and in the handler is outside any \<open>try\<close>.
\<close>

definition download_one ::
  "env \<Rightarrow> string \<Rightarrow> path \<Rightarrow> state \<Rightarrow> (exn + (bool \<times> string)) \<times> state" where
  "download_one e url out_path st =
     (if already_present e (fs st) out_path
      then (case relative_to out_path (ROOT e) of
              Inl x \<Rightarrow> (Inl x, st)
            | Inr s \<Rightarrow> (Inr (False, ''SKIP (exists) '' @ s), st))
      else (case try_body e url out_path st of
              (Inr (p, msg), st') \<Rightarrow> (Inr (True, msg), st')
            | (Inl (x, p), st') \<Rightarrow>
                (case relative_to p (ROOT e) of
                   Inl y \<Rightarrow> (Inl y, st')
                 | Inr s \<Rightarrow>
                     (Inr (False, ''ERROR '' @ url @ '' -> '' @ s @ '': '' @ exn_str x), st'))))"

subsection \<open>Archiver: \<open>build_zip\<close>\<close>

text \<open>
  \<open>folder.rglob("*")\<close> yields every entry strictly below \<open>folder\<close>, in the order the
  file system lists them.
\<close>

definition rglob :: "filesystem \<Rightarrow> path \<Rightarrow> (path \<times> node) list" where
  "rglob f folder = filter (\<lambda>(p, n). strict_prefix folder p) f"

text \<open>
  The loop body \<open>if p.is_file(): z.write(p, arcname=str(p.relative_to(ROOT)))\<close> over
  the entries found; the archive was opened with \<open>ZIP_DEFLATED\<close>, so every member is
  deflated. The result is the exception that ended the loop, if any, and the members
  written so far.
\<close>

fun zip_write ::
  "env \<Rightarrow> (path \<times> node) list \<Rightarrow> zip_entry list \<Rightarrow> exn option \<times> zip_entry list" where
  "zip_write e [] acc = (None, acc)"
| "zip_write e ((p, n) # rest) acc =
     (case n of
        Dir \<Rightarrow> zip_write e rest acc
      | File bs \<Rightarrow>
          (case relative_to p (ROOT e) of
             Inl x \<Rightarrow> (Some x, acc)
           | Inr s \<Rightarrow> zip_write e rest (acc @ [(s, ZIP_DEFLATED, bs)])))"

text \<open>
  \<open>zipfile.ZipFile(zip_path, "w")\<close> creates the archive file before the folders are
  walked, and closing it writes the members out.
\<close>

definition build_zip :: "env \<Rightarrow> path \<Rightarrow> filesystem \<Rightarrow> exn option \<times> filesystem" where
  "build_zip e zip_path f =
     (case (if node_at f zip_path \<noteq> None then unlink f zip_path else Inr f) of
        Inl x \<Rightarrow> (Some x, f)
      | Inr f1 \<Rightarrow>
          (case open_wb f1 zip_path of
             Inl x \<Rightarrow> (Some x, f1)
           | Inr f2 \<Rightarrow>
               (case zip_write e (rglob f2 (OUT_UNCOOKED e) @ rglob f2 (OUT_COOKED e)) [] of
                  (err, entries) \<Rightarrow>
                    (err, AList.update zip_path (File (zip_encode e entries)) f2))))"

subsection \<open>Manifest reader\<close>

text \<open>
  \<open>csv.DictReader\<close>: the first row gives the field names; a later row becomes the
  dictionary \<open>dict(zip(fieldnames, row))\<close>, with \<open>None\<close> (here the inner \<open>None\<close>) for the
  fields a short row lacks. In a dictionary the last value stored under a key wins.
\<close>

definition row_dict :: "string list \<Rightarrow> string list \<Rightarrow> (string \<rightharpoonup> string option)" where
  "row_dict fieldnames row =
     map_of (rev (zip fieldnames
                    (map Some row @ replicate (length fieldnames - length row) None)))"

text \<open>Lines 128 to 130: a missing key raises \<open>KeyError\<close>, \<open>None.strip()\<close> raises \<open>AttributeError\<close>.\<close>

definition row_job :: "env \<Rightarrow> string list \<Rightarrow> string list \<Rightarrow> exn + (string \<times> path)" where
  "row_job e fieldnames row =
     (case row_dict fieldnames row ''url'' of
        None \<Rightarrow> Inl (KeyError ''url'')
      | Some None \<Rightarrow> Inl (AttributeError ''NoneType object has no attribute strip'')
      | Some (Some u) \<Rightarrow>
          (case row_dict fieldnames row ''relative_output_path'' of
             None \<Rightarrow> Inl (KeyError ''relative_output_path'')
           | Some None \<Rightarrow> Inl (AttributeError ''NoneType object has no attribute strip'')
           | Some (Some rel) \<Rightarrow> Inr (strip u, pjoin (ROOT e) (strip rel))))"

text \<open>The loop over the reader, which passes over blank rows.\<close>

fun rows_jobs :: "env \<Rightarrow> string list \<Rightarrow> string list list \<Rightarrow> exn + (string \<times> path) list" where
  "rows_jobs e fieldnames [] = Inr []"
| "rows_jobs e fieldnames (row # rest) =
     (if row = [] then rows_jobs e fieldnames rest
      else (case row_job e fieldnames row of
              Inl x \<Rightarrow> Inl x
            | Inr j \<Rightarrow>
                (case rows_jobs e fieldnames rest of
                   Inl x \<Rightarrow> Inl x
                 | Inr js \<Rightarrow> Inr (j # js))))"

definition read_manifest :: "env \<Rightarrow> filesystem \<Rightarrow> exn + (string \<times> path) list" where
  "read_manifest e f =
     (case node_at f (MANIFEST e) of
        None \<Rightarrow> Inl (OSError ''No such file or directory'')
      | Some Dir \<Rightarrow> Inl (OSError ''Is a directory'')
      | Some (File bs) \<Rightarrow>
          (case csv_rows e bs of
             Inl m \<Rightarrow> Inl (CsvError m)
           | Inr rows \<Rightarrow>
               (case rows of
                  [] \<Rightarrow> Inr []
                | fieldnames # rest \<Rightarrow> rows_jobs e fieldnames rest)))"

subsection \<open>Batch runner: \<open>main\<close>\<close>

text \<open>
  The loop of lines 136 to 142, with the index, the two counters and the state as
  arguments. It returns the exception that left the loop (if any), the counters, the
  progress lines printed and the state.
\<close>

fun run_jobs ::
  "env \<Rightarrow> nat \<Rightarrow> (string \<times> path) list \<Rightarrow> nat \<Rightarrow> nat \<times> nat \<Rightarrow> state
     \<Rightarrow> (exn option \<times> nat \<times> nat) \<times> string list \<times> state" where
  "run_jobs e n_jobs [] idx (downloaded, errors) st = ((None, downloaded, errors), [], st)"
| "run_jobs e n_jobs ((url, out_path) # rest) idx (downloaded, errors) st =
     (case download_one e url out_path st of
        (Inl x, st') \<Rightarrow> ((Some x, downloaded, errors), [], st')
      | (Inr (ok, msg), st') \<Rightarrow>
          (case run_jobs e n_jobs rest (Suc idx)
                  (if startswith msg ''ERROR'' then (downloaded, Suc errors)
                   else if ok then (Suc downloaded, errors)
                   else (downloaded, errors)) st' of
             (res, printed, st'') \<Rightarrow>
               (res,
                (''['' @ show_nat idx @ ''/'' @ show_nat n_jobs @ ''] '' @ msg) # printed,
                st'')))"

text \<open>
  \<open>main\<close> returns the exit code, or raises; with it the lines printed and the final
  state. The line reporting the elapsed time is left out.
\<close>

definition main :: "env \<Rightarrow> state \<Rightarrow> (exn + int) \<times> string list \<times> state" where
  "main e st =
     (case ensure_dirs e (fs st) of
        (Some x, f1) \<Rightarrow> (Inl x, [], st\<lparr>fs := f1\<rparr>)
      | (None, f1) \<Rightarrow>
          (if node_at f1 (MANIFEST e) = None
           then (Inr 2, [''Missing manifest.csv at: '' @ path_str (MANIFEST e)], st\<lparr>fs := f1\<rparr>)
           else (case read_manifest e f1 of
                   Inl x \<Rightarrow> (Inl x, [], st\<lparr>fs := f1\<rparr>)
                 | Inr jobs \<Rightarrow>
                     (case run_jobs e (length jobs) jobs 1 (0, 0) (st\<lparr>fs := f1\<rparr>) of
                        ((Some x, downloaded, errors), printed, st2) \<Rightarrow> (Inl x, printed, st2)
                      | ((None, downloaded, errors), printed, st2) \<Rightarrow>
                          (case build_zip e (ZIP_OUT e) (fs st2) of
                             (Some x, f3) \<Rightarrow> (Inl x, printed, st2\<lparr>fs := f3\<rparr>)
                           | (None, f3) \<Rightarrow>
                               (Inr (if errors \<noteq> 0 then 1 else 0),
                                printed @
                                  [[], ''Done.'',
                                   ''Downloaded this run: '' @ show_nat downloaded,
                                   ''Errors: '' @ show_nat errors,
                                   ''ZIP created: '' @ path_str (ZIP_OUT e)],
                                st2\<lparr>fs := f3\<rparr>))))))"

subsection \<open>The outcome of a fetch\<close>

text \<open>
  The three ways \<open>download_one\<close> ends, as the specification's Download Outcome: the
  job was skipped, its body was stored at a final path, or an exception was caught
  while the destination was the given path.
\<close>

datatype outcome = Skipped | Stored path | Failed exn path

definition fetch :: "env \<Rightarrow> string \<Rightarrow> path \<Rightarrow> state \<Rightarrow> outcome \<times> state" where
  "fetch e url out_path st =
     (if already_present e (fs st) out_path then (Skipped, st)
      else (case try_body e url out_path st of
              (Inr (p, msg), st') \<Rightarrow> (Stored p, st')
            | (Inl (x, p), st') \<Rightarrow> (Failed x p, st')))"

text \<open>The outcomes of a job list run in order, each job on the state the previous one left.\<close>

fun outcomes :: "env \<Rightarrow> (string \<times> path) list \<Rightarrow> state \<Rightarrow> outcome list" where
  "outcomes e [] st = []"
| "outcomes e ((url, out_path) # rest) st =
     (case fetch e url out_path st of (oc, st') \<Rightarrow> oc # outcomes e rest st')"

subsection \<open>Notions the specification uses\<close>

text \<open>
  The temporary sibling of a final path: same directory, the final name followed by
  the transient suffix \<open>.part\<close>.
\<close>

definition tmp_of :: "path \<Rightarrow> path" where
  "tmp_of q = butlast q @ [name_of q @ ''.part'']"

text \<open>The full body of a response, and whether its stream arrives unbroken.\<close>

fun chunk_bytes :: "event \<Rightarrow> bytes" where
  "chunk_bytes (Chunk c) = c"
| "chunk_bytes (Broken m) = []"

definition body_bytes :: "response \<Rightarrow> bytes" where
  "body_bytes r = concat (map chunk_bytes (body r))"

fun is_chunk :: "event \<Rightarrow> bool" where
  "is_chunk (Chunk c) = True"
| "is_chunk (Broken m) = False"

definition intact :: "response \<Rightarrow> bool" where
  "intact r = list_all is_chunk (body r)"

fun is_failure :: "outcome \<Rightarrow> bool" where
  "is_failure (Failed x q) = True"
| "is_failure Skipped = False"
| "is_failure (Stored q) = False"

fun is_skip :: "outcome \<Rightarrow> bool" where
  "is_skip Skipped = True"
| "is_skip (Failed x q) = False"
| "is_skip (Stored q) = False"

text \<open>
  The extension rule in the specification's words. The path suffix of a URL is the
  last path segment from its last dot on; the media type of a response is its
  Content-Type up to the first semicolon, trimmed and in lower case.
\<close>

definition IMAGE_SUFFIXES :: "string list" where
  "IMAGE_SUFFIXES =
     [''.jpg'', ''.jpeg'', ''.png'', ''.webp'', ''.gif'', ''.tif'', ''.tiff'', ''.bmp'']"

definition url_suffix :: "env \<Rightarrow> string \<Rightarrow> string" where
  "url_suffix e url =
     (let segment = basename (url_path e url)
      in case rfind CHR ''.'' segment of
           None \<Rightarrow> []
         | Some i \<Rightarrow> drop i segment)"

definition media_type :: "response \<Rightarrow> string" where
  "media_type r =
     lower (strip (takeWhile (\<lambda>c. c \<noteq> CHR '';'') (header_content_type r)))"

definition chosen_ext :: "env \<Rightarrow> response \<Rightarrow> string" where
  "chosen_ext e r =
     (let s = lower (url_suffix e (final_url r))
      in if s \<in> set IMAGE_SUFFIXES then (if s = ''.jpeg'' then ''.jpg'' else s)
         else (case map_of CONTENT_TYPE_EXT (media_type r) of
                 Some ext \<Rightarrow> ext
               | None \<Rightarrow> []))"

definition final_path :: "env \<Rightarrow> response \<Rightarrow> path \<Rightarrow> path" where
  "final_path e r out_path =
     (if chosen_ext e r = [] then out_path
      else butlast out_path @ [name_of out_path @ chosen_ext e r])"

subsection \<open>A sample environment\<close>

text \<open>
  A small world to run the model in: a server with four resources, a disk that fills
  up while \<open>big.gif\<close> is written, and two manifests.
\<close>

definition demo_response :: "string \<Rightarrow> string option \<Rightarrow> event list \<Rightarrow> response" where
  "demo_response u ct evs =
     \<lparr>status_code = 200, reason = ''OK'', final_url = u, content_type = ct, body = evs\<rparr>"

definition demo_net :: "nat \<Rightarrow> string \<Rightarrow> string + response" where
  "demo_net k u =
     (if u = ''https://example.com/img''
        then Inr (demo_response u (Some ''image/png'') [Chunk [1, 2, 3]])
      else if u = ''https://example.com/a.JPEG''
        then Inr (demo_response u (Some ''text/html'') [Chunk [4], Chunk [], Chunk [5]])
      else if u = ''https://example.com/big.gif''
        then Inr (demo_response u None [Chunk [6, 7], Chunk [8]])
      else if u = ''https://example.com/gone''
        then Inr \<lparr>status_code = 404, reason = ''Not Found'', final_url = u,
                  content_type = None, body = []\<rparr>
      else Inl ''connection refused'')"

definition demo_rows_a :: "string list list" where
  "demo_rows_a =
     [[''url'', ''relative_output_path''],
      [''https://example.com/img'', ''uncooked/shape1''],
      [''https://example.com/gone'', ''cooked/b.png'']]"

definition demo_rows_b :: "string list list" where
  "demo_rows_b =
     [[''url'', ''relative_output_path''],
      ['' https://example.com/a.JPEG'', ''uncooked/a.jpg '']]"

definition demo_csv :: "bytes \<Rightarrow> string + string list list" where
  "demo_csv bs =
     (if bs = [1] then Inr demo_rows_a
      else if bs = [2] then Inr demo_rows_b
      else Inl ''not a manifest'')"

definition demo_zip :: "zip_entry list \<Rightarrow> bytes" where
  "demo_zip entries = 80 # 75 # concat (map (\<lambda>(arcname, method, bs). bs) entries)"

definition demo_env :: env where
  "demo_env =
     \<lparr>ROOT = [''srv''],
      net = demo_net,
      url_path = drop 19,
      csv_rows = demo_csv,
      zip_encode = demo_zip,
      dir_size = 4096,
      write_fault =
        (\<lambda>p written chunk.
           if p = [''srv'', ''cooked'', ''big.gif.part''] \<and> written \<noteq> []
           then Some ''No space left on device'' else None)\<rparr>"

definition demo_state :: "filesystem \<Rightarrow> state" where
  "demo_state f = \<lparr>fs = f, reqs = []\<rparr>"

section \<open>Verified properties\<close>

lemma node_at_update:
  "node_at (AList.update k v f) p = (if p = [] then Some Dir else if p = k then Some v else node_at f p)"
  by (simp add: node_at_def update_conv')

lemma node_at_delete:
  "node_at (AList.delete k f) p = (if p = [] then Some Dir else if p = k then None else node_at f p)"
  by (simp add: node_at_def delete_conv')

lemma set_ancestors: "set (ancestors d) = {q. prefix q d \<and> q \<noteq> []}"
  by (cases d) (auto simp: ancestors_def prefix_Cons)

lemma mkdir_fold:
  "\<not> list_ex (\<lambda>q. is_file (node_at f q)) qs \<Longrightarrow>
   node_at (fold (\<lambda>q f. if node_at f q = None then AList.update q Dir f else f) qs f) p =
     (if p \<in> set qs then Some Dir else node_at f p)"
proof (induction qs arbitrary: f)
  case Nil
  then show ?case by simp
next
  case (Cons q qs)
  let ?g = "if node_at f q = None then AList.update q Dir f else f"
  have nf: "\<not> is_file (node_at f q)" using Cons.prems by simp
  have step: "node_at ?g r = (if r = q then Some Dir else node_at f r)" for r
  proof (cases "node_at f q")
    case None
    then show ?thesis by (auto simp: node_at_update) (simp add: node_at_def)
  next
    case (Some n)
    with nf have "n = Dir" by (cases n) (auto simp: is_file_def)
    with Some show ?thesis by auto
  qed
  have "\<not> list_ex (\<lambda>q. is_file (node_at ?g q)) qs"
    using Cons.prems unfolding list_ex_iff by (auto simp: step is_file_def simp del: node_at_update)
  from Cons.IH[OF this] show ?case by (auto simp: step)
qed

lemma mkdir_p_node_at:
  "mkdir_p f d = Inr f' \<Longrightarrow> node_at f' p = (if p \<in> set (ancestors d) then Some Dir else node_at f p)"
  by (auto simp: mkdir_p_def mkdir_fold split: if_splits)

lemma mkdir_p_fails: "mkdir_p f d = Inl x \<Longrightarrow> \<exists>q\<in>set (ancestors d). is_file (node_at f q)"
  by (auto simp: mkdir_p_def list_ex_iff split: if_splits)

lemma rfind_bound: "rfind c s = Some i \<Longrightarrow> i < length s"
  by (induction s arbitrary: i) (auto split: option.splits if_splits)

lemma suffix_of_drop: "suffix_of p \<noteq> [] \<Longrightarrow> \<exists>i < length (name_of p). suffix_of p = drop i (name_of p)"
  by (auto simp: suffix_of_def Let_def split: option.splits if_splits dest: rfind_bound)

lemma with_suffix_part:
  assumes "with_suffix p (suffix_of p @ ''.part'') = Inr t"
  shows "t = butlast p @ [name_of p @ ''.part''] \<and> p \<noteq> []"
proof (cases "suffix_of p = []")
  case True
  with assms show ?thesis by (auto simp: with_suffix_def Let_def name_of_def split: if_splits)
next
  case False
  then obtain i where i: "i < length (name_of p)" "suffix_of p = drop i (name_of p)"
    using suffix_of_drop by blast
  then have "take (length (name_of p) - length (suffix_of p)) (name_of p) @ suffix_of p = name_of p"
    by simp
  with assms False show ?thesis
    by (auto simp: with_suffix_def Let_def name_of_def split: if_splits)
qed

lemma with_suffix_shape:
  "with_suffix p s = Inr t \<Longrightarrow> p \<noteq> [] \<and> butlast t = butlast p \<and> length t = length p"
  by (auto simp: with_suffix_def Let_def name_of_def split: if_splits)

lemma write_chunks_ok:
  "write_chunks e tmp evs acc = (None, w) \<Longrightarrow> w = acc @ concat (map chunk_bytes evs) \<and> list_all is_chunk evs"
  by (induction e tmp evs acc rule: write_chunks.induct)
     (auto split: if_splits option.splits)

lemma node_at_Nil: "node_at f [] = Some Dir"
  by (simp add: node_at_def)

lemma tmp_of_neq: "tmp_of q \<noteq> q"
  by (cases q rule: rev_cases) (auto simp: tmp_of_def name_of_def)

lemma tmp_of_nonempty: "tmp_of q \<noteq> []"
  by (simp add: tmp_of_def)

lemma not_in_ancestors_parent: "length q \<le> length p \<Longrightarrow> p \<notin> set (ancestors (parent q))"
  by (cases q rule: rev_cases) (auto simp: set_ancestors parent_def dest: prefix_length_le)

lemma length_tmp_of: "q \<noteq> [] \<Longrightarrow> length (tmp_of q) = length q"
  by (simp add: tmp_of_def)

lemma tmp_not_ancestor: "tmp_of q \<notin> set (ancestors (parent q))"
proof (cases "q = []")
  case True
  then show ?thesis by (simp add: parent_def ancestors_def)
next
  case False
  then show ?thesis by (simp add: length_tmp_of not_in_ancestors_parent)
qed

lemma self_not_ancestor: "q \<notin> set (ancestors (parent q))"
  by (simp add: not_in_ancestors_parent)

lemma store_body_ok:
  assumes "store_body e r q f = (None, f')"
  shows "q \<noteq> [] \<and> intact r \<and>
         (\<forall>p. node_at f' p =
               (if p = q then Some (File (body_bytes r))
                else if p = tmp_of q then None
                else if p \<in> set (ancestors (parent q)) then Some Dir
                else node_at f p))"
proof -
  from assms obtain f1 where f1: "mkdir_p f (parent q) = Inr f1"
    by (auto simp: store_body_def split: sum.splits)
  from assms f1 obtain t where t: "with_suffix q (suffix_of q @ ''.part'') = Inr t"
    by (auto simp: store_body_def split: sum.splits)
  then have tq: "t = tmp_of q" and q: "q \<noteq> []"
    using with_suffix_part[OF t] by (auto simp: tmp_of_def)
  from assms f1 t obtain f2 where f2: "open_wb f1 t = Inr f2"
    by (auto simp: store_body_def split: sum.splits)
  then have f2eq: "f2 = AList.update t (File []) f1"
    by (auto simp: open_wb_def split: if_splits)
  from assms f1 t f2 obtain w where w: "write_chunks e t (body r) [] = (None, w)"
    by (auto simp: store_body_def split: sum.splits option.splits prod.splits)
  then have wb: "w = body_bytes r" and intact: "intact r"
    using write_chunks_ok[OF w] by (auto simp: body_bytes_def intact_def)
  from assms f1 t f2 w have rep: "os_replace (AList.update t (File w) f2) t q = Inr f'"
    by (auto simp: store_body_def split: sum.splits)
  have tne: "t \<noteq> []" using tq tmp_of_nonempty by simp
  have "f' = AList.update q (File w) (AList.delete t (AList.update t (File w) f2))"
    using rep tne by (auto simp: os_replace_def node_at_update split: option.splits if_splits)
  then have "node_at f' p =
               (if p = q then Some (File (body_bytes r))
                else if p = tmp_of q then None
                else if p \<in> set (ancestors (parent q)) then Some Dir
                else node_at f p)" for p
    using q tne tq wb f2eq mkdir_p_node_at[OF f1, of p]
    by (auto simp: node_at_update node_at_delete node_at_Nil set_ancestors)
  with q intact show ?thesis by blast
qed

lemma store_body_fail:
  assumes "store_body e r q f = (Some x, f')"
  shows "\<forall>p. p \<noteq> tmp_of q \<longrightarrow>
           node_at f' p = node_at f p \<or>
           (p \<in> set (ancestors (parent q)) \<and> node_at f' p = Some Dir)"
proof (cases "mkdir_p f (parent q)")
  case (Inl y)
  with assms show ?thesis by (auto simp: store_body_def)
next
  case (Inr f1)
  note f1 = this
  have f1p: "node_at f1 p = node_at f p \<or> (p \<in> set (ancestors (parent q)) \<and> node_at f1 p = Some Dir)" for p
    using mkdir_p_node_at[OF f1, of p] by auto
  show ?thesis
  proof (cases "with_suffix q (suffix_of q @ ''.part'')")
    case (Inl y)
    with assms f1 f1p show ?thesis by (auto simp: store_body_def)
  next
    case (Inr t)
    then have tq: "t = tmp_of q" using with_suffix_part[OF Inr] by (auto simp: tmp_of_def)
    have tne: "t \<noteq> []" using tq tmp_of_nonempty by simp
    show ?thesis
    proof (cases "open_wb f1 t")
      case (Inl y)
      with assms f1 Inr f1p show ?thesis by (auto simp: store_body_def)
    next
      case (Inr f2)
      then have f2eq: "f2 = AList.update t (File []) f1"
        by (auto simp: open_wb_def split: if_splits)
      obtain err w where w: "write_chunks e t (body r) [] = (err, w)" by fastforce
      have "f' = AList.update t (File w) f2"
        using assms f1 \<open>with_suffix q (suffix_of q @ ''.part'') = Inr t\<close> Inr w
        by (cases err) (auto simp: store_body_def split: sum.splits)
      then have "p \<noteq> t \<Longrightarrow> node_at f' p = node_at f1 p" for p
        using f2eq by (simp add: node_at_update) (simp add: node_at_def)
      with f1p tq show ?thesis by metis
    qed
  qed
qed

lemma resolve_out_path_shape:
  assumes "resolve_out_path e r p = Inr q"
  shows "q = p \<or> (suffix_of p = [] \<and> p \<noteq> [] \<and> (\<exists>ext. ext \<noteq> [] \<and> q = butlast p @ [name_of p @ ext]))"
  using assms
  by (auto simp: resolve_out_path_def with_suffix_def Let_def name_of_def split: if_splits)

lemma strict_prefix_butlast_snoc:
  assumes "strict_prefix b p"
  shows "strict_prefix b (butlast p @ [n])"
proof -
  from assms obtain c cs where p: "p = b @ c # cs"
    by (auto elim: strict_prefixE')
  have "butlast p @ [n] = b @ (butlast (c # cs) @ [n])"
    by (simp add: p butlast_append)
  then show ?thesis by (simp add: strict_prefix_def del: butlast.simps)
qed

lemma resolve_out_path_under:
  assumes "resolve_out_path e r p = Inr q" and "strict_prefix b p"
  shows "strict_prefix b q"
proof -
  from resolve_out_path_shape[OF assms(1)]
  consider "q = p" | ext where "q = butlast p @ [name_of p @ ext]" by blast
  then show ?thesis
  proof cases
    case 1
    with assms(2) show ?thesis by simp
  next
    case 2
    with strict_prefix_butlast_snoc[OF assms(2)] show ?thesis by simp
  qed
qed

lemma relative_to_prefix: "prefix b p \<Longrightarrow> \<exists>s. relative_to p b = Inr s"
  by (simp add: relative_to_def)

lemma relative_to_Inr: "relative_to p b = Inr s \<Longrightarrow> prefix b p"
  by (simp add: relative_to_def split: if_splits)

lemma try_body_reqs: "try_body e url p st = (res, st') \<Longrightarrow> reqs st' = reqs st @ [url]"
  by (auto simp: try_body_def Let_def split: sum.splits option.splits prod.splits)

lemma try_body_Inr:
  assumes "try_body e url p st = (Inr (q, msg), st')"
  shows "\<exists>r s. net e (length (reqs st)) url = Inr r \<and> raise_for_status r = None \<and>
           resolve_out_path e r p = Inr q \<and> store_body e r q (fs st) = (None, fs st') \<and>
           relative_to q (ROOT e) = Inr s \<and> msg = ''OK '' @ s"
  using assms
  by (auto simp: try_body_def Let_def split: sum.splits option.splits prod.splits)

lemma try_body_Inl:
  assumes "try_body e url p st = (Inl (x, q), st')"
  shows "(q = p \<and> fs st' = fs st) \<or>
         (\<exists>r. net e (length (reqs st)) url = Inr r \<and> raise_for_status r = None \<and>
            resolve_out_path e r p = Inr q \<and>
            (store_body e r q (fs st) = (Some x, fs st') \<or>
             (store_body e r q (fs st) = (None, fs st') \<and> \<not> prefix (ROOT e) q)))"
  using assms
  by (auto simp: try_body_def Let_def relative_to_def split: sum.splits option.splits prod.splits if_splits)


lemma fetch_Skipped:
  "fetch e url p st = (Skipped, st') \<longleftrightarrow> already_present e (fs st) p \<and> st' = st"
  by (auto simp: fetch_def split: sum.splits prod.splits)

lemma fetch_not_present:
  "\<not> already_present e (fs st) p \<Longrightarrow> fetch e url p st = (oc, st') \<Longrightarrow>
     reqs st' = reqs st @ [url] \<and> oc \<noteq> Skipped"
  by (auto simp: fetch_def split: sum.splits prod.splits dest: try_body_reqs)

lemma fetch_Stored:
  assumes "fetch e url p st = (Stored q, st')"
  shows "\<not> already_present e (fs st) p \<and> reqs st' = reqs st @ [url] \<and>
         (\<exists>r. net e (length (reqs st)) url = Inr r \<and> raise_for_status r = None \<and>
              resolve_out_path e r p = Inr q \<and> store_body e r q (fs st) = (None, fs st') \<and>
              prefix (ROOT e) q)"
proof -
  from assms have np: "\<not> already_present e (fs st) p"
    by (auto simp: fetch_def split: if_splits)
  with assms obtain msg where tb: "try_body e url p st = (Inr (q, msg), st')"
    by (auto simp: fetch_def split: sum.splits prod.splits)
  from try_body_Inr[OF tb] try_body_reqs[OF tb] np show ?thesis
    by (auto dest: relative_to_Inr)
qed

lemma fetch_Failed:
  assumes "fetch e url p st = (Failed x q, st')"
  shows "\<not> already_present e (fs st) p \<and> reqs st' = reqs st @ [url] \<and>
         ((q = p \<and> fs st' = fs st) \<or>
          (\<exists>r. net e (length (reqs st)) url = Inr r \<and> raise_for_status r = None \<and>
             resolve_out_path e r p = Inr q \<and>
             (store_body e r q (fs st) = (Some x, fs st') \<or>
              (store_body e r q (fs st) = (None, fs st') \<and> \<not> prefix (ROOT e) q))))"
proof -
  from assms have np: "\<not> already_present e (fs st) p"
    by (auto simp: fetch_def split: if_splits)
  with assms have tb: "try_body e url p st = (Inl (x, q), st')"
    by (auto simp: fetch_def split: sum.splits prod.splits)
  from try_body_Inl[OF tb] try_body_reqs[OF tb] np show ?thesis
    by blast
qed

lemma download_one_fetch:
  "download_one e url p st =
     (case fetch e url p st of
        (Skipped, st') \<Rightarrow>
          (case relative_to p (ROOT e) of
             Inl x \<Rightarrow> (Inl x, st')
           | Inr s \<Rightarrow> (Inr (False, ''SKIP (exists) '' @ s), st'))
      | (Stored q, st') \<Rightarrow>
          (case relative_to q (ROOT e) of
             Inl x \<Rightarrow> (Inl x, st')
           | Inr s \<Rightarrow> (Inr (True, ''OK '' @ s), st'))
      | (Failed x q, st') \<Rightarrow>
          (case relative_to q (ROOT e) of
             Inl y \<Rightarrow> (Inl y, st')
           | Inr s \<Rightarrow> (Inr (False, ''ERROR '' @ url @ '' -> '' @ s @ '': '' @ exn_str x), st')))"
proof (cases "already_present e (fs st) p")
  case True
  then show ?thesis by (simp add: download_one_def fetch_def)
next
  case False
  obtain res st' where tb: "try_body e url p st = (res, st')" by fastforce
  show ?thesis
  proof (cases res)
    case (Inl xq)
    with tb False show ?thesis
      by (cases xq) (simp add: download_one_def fetch_def)
  next
    case (Inr qm)
    obtain q msg where qm: "qm = (q, msg)" by fastforce
    from try_body_Inr[OF tb[unfolded Inr qm]] tb Inr qm False show ?thesis
      by (auto simp: download_one_def fetch_def)
  qed
qed

lemma snd_download_one: "snd (download_one e url p st) = snd (fetch e url p st)"
  by (simp add: download_one_fetch split: prod.splits outcome.splits sum.splits)

subsection \<open>Claim C7: the skip of a destination that is already present\<close>

text \<open>
  Claim C7. When the destination path exists with non-zero size, \<open>download_one\<close>
  returns \<open>(False, "SKIP (exists) ...")\<close> and leaves the state as it was: no
  request is logged and the file system is unchanged. The destination has to lie
  below \<open>ROOT\<close>, since the message prints it relative to \<open>ROOT\<close>. When the
  destination exists with size zero the skip does not apply: the request is sent.
\<close>

theorem skip_existing_nonempty:
  assumes "node_at (fs st) out_path = Some n"
  shows "(0 < st_size e n \<longrightarrow> prefix (ROOT e) out_path \<longrightarrow>
            (\<exists>s. relative_to out_path (ROOT e) = Inr s \<and>
                 download_one e url out_path st = (Inr (False, ''SKIP (exists) '' @ s), st)))
         \<and> (st_size e n = 0 \<longrightarrow> reqs (snd (download_one e url out_path st)) = reqs st @ [url])"
proof (intro conjI impI)
  assume "0 < st_size e n" and "prefix (ROOT e) out_path"
  with assms show "\<exists>s. relative_to out_path (ROOT e) = Inr s \<and>
      download_one e url out_path st = (Inr (False, ''SKIP (exists) '' @ s), st)"
    by (simp add: download_one_def already_present_def relative_to_def)
next
  assume "st_size e n = 0"
  with assms have "\<not> already_present e (fs st) out_path"
    by (simp add: already_present_def)
  then show "reqs (snd (download_one e url out_path st)) = reqs st @ [url]"
    using fetch_not_present[of e st out_path url] by (simp add: snd_download_one split: prod.splits) (metis prod.collapse)
qed

theorem skip_existing_nonempty_witness:
  "download_one demo_env ''https://example.com/img'' [''srv'', ''uncooked'', ''a.jpg'']
      (demo_state [([''srv'', ''uncooked'', ''a.jpg''], File [1, 2])])
     = (Inr (False, ''SKIP (exists) uncooked/a.jpg''),
        demo_state [([''srv'', ''uncooked'', ''a.jpg''], File [1, 2])])
   \<and> reqs (snd (download_one demo_env ''https://example.com/img'' [''srv'', ''uncooked'', ''a.jpg'']
      (demo_state [([''srv'', ''uncooked'', ''a.jpg''], File [])])))
     = [''https://example.com/img'']"
proof -
  let ?p = "[''srv'', ''uncooked'', ''a.jpg'']"
  let ?s1 = "demo_state [(?p, File [1, 2])]"
  let ?s2 = "demo_state [(?p, File [])]"
  have n1: "node_at (fs ?s1) ?p = Some (File [1, 2])"
    by (simp add: node_at_def demo_state_def)
  have n2: "node_at (fs ?s2) ?p = Some (File [])"
    by (simp add: node_at_def demo_state_def)
  have a: "0 < st_size demo_env (File [1, 2])" by (simp add: st_size_def)
  have b: "prefix (ROOT demo_env) ?p" by (simp add: demo_env_def)
  have c: "st_size demo_env (File []) = 0" by (simp add: st_size_def)
  from skip_existing_nonempty[OF n1, of demo_env "''https://example.com/img''"] a b
  have "\<exists>s. relative_to ?p (ROOT demo_env) = Inr s \<and>
           download_one demo_env ''https://example.com/img'' ?p ?s1 = (Inr (False, ''SKIP (exists) '' @ s), ?s1)"
    by blast
  moreover have "relative_to ?p (ROOT demo_env) = Inr ''uncooked/a.jpg''"
    by (simp add: relative_to_def demo_env_def)
  ultimately have 1: "download_one demo_env ''https://example.com/img'' ?p ?s1
      = (Inr (False, ''SKIP (exists) uncooked/a.jpg''), ?s1)" by auto
  from skip_existing_nonempty[OF n2, of demo_env "''https://example.com/img''"] c
  have 2: "reqs (snd (download_one demo_env ''https://example.com/img'' ?p ?s2)) = [''https://example.com/img'']"
    by (simp add: demo_state_def)
  from 1 2 show ?thesis by (rule conjI)
qed

subsection \<open>Claim C10: the skip check looks at the manifest path only\<close>

text \<open>
  Claim C10. For a manifest path with no extension the skip check reads the node at
  that very path, before any request and so before any inference: two states that
  agree at the manifest path give the same skip decision, whatever else they hold,
  and when nothing is at the manifest path the request is sent, also when an earlier
  run left its file at the path with the inferred extension.
\<close>

theorem skip_check_reads_manifest_path:
  assumes "suffix_of out_path = []"
  shows "(node_at (fs st') out_path = node_at (fs st) out_path \<longrightarrow>
            is_skip (fst (fetch e url out_path st')) = is_skip (fst (fetch e url out_path st)))
         \<and> (node_at (fs st) out_path = None \<longrightarrow>
              reqs (snd (download_one e url out_path st)) = reqs st @ [url]
              \<and> \<not> is_skip (fst (fetch e url out_path st)))"
proof -
  have skip: "is_skip (fst (fetch e url out_path s)) = already_present e (fs s) out_path" for s
  proof (cases "already_present e (fs s) out_path")
    case True
    then show ?thesis by (simp add: fetch_def)
  next
    case False
    obtain oc s' where f: "fetch e url out_path s = (oc, s')" by fastforce
    with fetch_not_present[OF False f] False show ?thesis by (cases oc) auto
  qed
  have agree: "node_at (fs st') out_path = node_at (fs st) out_path \<Longrightarrow>
      already_present e (fs st') out_path = already_present e (fs st) out_path"
    by (simp add: already_present_def)
  have absent: "reqs (snd (download_one e url out_path st)) = reqs st @ [url]
      \<and> \<not> is_skip (fst (fetch e url out_path st))"
    if "node_at (fs st) out_path = None"
  proof -
    from that have np: "\<not> already_present e (fs st) out_path"
      by (simp add: already_present_def)
    obtain oc s' where f: "fetch e url out_path st = (oc, s')" by fastforce
    from fetch_not_present[OF np f] f np show ?thesis
      by (cases oc) (simp_all add: snd_download_one)
  qed
  from skip agree absent show ?thesis by simp
qed

theorem skip_check_reads_manifest_path_witness:
  "reqs (snd (download_one demo_env ''https://example.com/img'' [''srv'', ''uncooked'', ''shape1'']
            (demo_state [([''srv'', ''uncooked'', ''shape1.png''], File [1, 2, 3])])))
     = [''https://example.com/img'']
   \<and> \<not> is_skip (fst (fetch demo_env ''https://example.com/img'' [''srv'', ''uncooked'', ''shape1'']
            (demo_state [([''srv'', ''uncooked'', ''shape1.png''], File [1, 2, 3])])))
   \<and> is_skip (fst (fetch demo_env ''https://example.com/img'' [''srv'', ''uncooked'', ''shape1'']
            (demo_state [([''srv'', ''uncooked'', ''shape1.png''], File [1, 2, 3])])))
     = is_skip (fst (fetch demo_env ''https://example.com/img'' [''srv'', ''uncooked'', ''shape1'']
            (demo_state [])))"
proof -
  let ?p = "[''srv'', ''uncooked'', ''shape1'']"
  let ?s = "demo_state [([''srv'', ''uncooked'', ''shape1.png''], File [1, 2, 3])]"
  have sfx: "suffix_of ?p = []"
    by (simp add: suffix_of_def name_of_def)
  have none: "node_at (fs ?s) ?p = None"
    by (simp add: node_at_def demo_state_def)
  have same: "node_at (fs ?s) ?p = node_at (fs (demo_state [])) ?p"
    by (simp add: node_at_def demo_state_def)
  from skip_check_reads_manifest_path[OF sfx, of ?s "demo_state []" demo_env "''https://example.com/img''"] same
  have a: "is_skip (fst (fetch demo_env ''https://example.com/img'' ?p ?s))
         = is_skip (fst (fetch demo_env ''https://example.com/img'' ?p (demo_state [])))"
    by simp
  from skip_check_reads_manifest_path[OF sfx, of ?s ?s demo_env "''https://example.com/img''"] none
  have b: "reqs (snd (download_one demo_env ''https://example.com/img'' ?p ?s)) = [''https://example.com/img'']
      \<and> \<not> is_skip (fst (fetch demo_env ''https://example.com/img'' ?p ?s))"
    by (simp add: demo_state_def)
  from a b show ?thesis by blast
qed

subsection \<open>Claim C6: a manifest path with an extension is kept\<close>

text \<open>
  Claim C6. When the manifest path has an extension, lines 87 to 90 leave it as it
  is whatever the response says (no inference), a stored body lies at exactly the
  manifest path, and a caught failure reports exactly the manifest path.
\<close>

theorem extension_kept:
  assumes "suffix_of out_path \<noteq> []"
  shows "resolve_out_path e r out_path = Inr out_path
         \<and> (fetch e url out_path st = (Stored q, st') \<longrightarrow>
              q = out_path \<and>
              (\<exists>r'. net e (length (reqs st)) url = Inr r' \<and>
                    node_at (fs st') out_path = Some (File (body_bytes r'))))
         \<and> (fetch e url out_path st = (Failed x q, st') \<longrightarrow> q = out_path)"
proof (intro conjI impI)
  show res: "resolve_out_path e r out_path = Inr out_path" for r
    using assms by (simp add: resolve_out_path_def)
  {
    assume f: "fetch e url out_path st = (Stored q, st')"
    from fetch_Stored[OF f] obtain r' where
      r': "net e (length (reqs st)) url = Inr r'" "resolve_out_path e r' out_path = Inr q"
          "store_body e r' q (fs st) = (None, fs st')"
      by blast
    from r'(2) res[of r'] have q: "q = out_path" by simp
    from store_body_ok[OF r'(3)] have "node_at (fs st') q = Some (File (body_bytes r'))"
      by simp
    with q r'(1) show "q = out_path" and
      "\<exists>r'. net e (length (reqs st)) url = Inr r' \<and>
            node_at (fs st') out_path = Some (File (body_bytes r'))"
      by auto
  }
  {
    assume f: "fetch e url out_path st = (Failed x q, st')"
    from fetch_Failed[OF f] res show "q = out_path" by auto
  }
qed

theorem extension_kept_witness:
  "fetch demo_env ''https://example.com/img'' [''srv'', ''uncooked'', ''a.jpg''] (demo_state [])
     = (Stored [''srv'', ''uncooked'', ''a.jpg''],
        \<lparr>fs = [([''srv''], Dir), ([''srv'', ''uncooked''], Dir),
               ([''srv'', ''uncooked'', ''a.jpg''], File [1, 2, 3])],
         reqs = [''https://example.com/img'']\<rparr>)
   \<and> resolve_out_path demo_env (demo_response ''https://example.com/img'' (Some ''image/png'') [])
        [''srv'', ''uncooked'', ''a.jpg''] = Inr [''srv'', ''uncooked'', ''a.jpg'']"
proof -
  let ?p = "[''srv'', ''uncooked'', ''a.jpg'']"
  have sfx: "suffix_of ?p \<noteq> []"
    by (simp add: suffix_of_def name_of_def)
  have "fetch demo_env ''https://example.com/img'' ?p (demo_state [])
     = (Stored [''srv'', ''uncooked'', ''a.jpg''],
        \<lparr>fs = [([''srv''], Dir), ([''srv'', ''uncooked''], Dir),
               ([''srv'', ''uncooked'', ''a.jpg''], File [1, 2, 3])],
         reqs = [''https://example.com/img'']\<rparr>)"
    by code_simp
  moreover have "resolve_out_path demo_env
      (demo_response ''https://example.com/img'' (Some ''image/png'') []) ?p = Inr ?p"
    using extension_kept[OF sfx] by blast
  ultimately show ?thesis by (rule conjI)
qed

end
